theory Spec2Isabelle
  imports Complex_Main "HOL-Library.Word" "HOL-Library.Multiset"
begin

section \<open>Values, errors and arrays\<close>

text \<open>
  The notebooks are Python over numpy, jax.numpy, jax.random and torch's DataLoader.
  A Python exception is a value of \<open>py_error\<close>, and a function that can raise
  returns \<open>py_error + 'a\<close> with \<open>Inl\<close> for the exception.
  \<^item> \<open>ShapeError\<close> stands for the exception numpy (a ValueError) and jax.numpy
    (a TypeError) raise for operands whose shapes do not fit.
  \<^item> \<open>NotAReal\<close> is not an exception: the float computed is nan or infinite and
    no real number stands for it.
  Float arithmetic is idealised: array entries are real numbers.
\<close>

datatype py_error = IndexError | TypeError | ValueError | ShapeError
  | ZeroDivisionError | NotAReal


text \<open>A jax array of rank 1 is the list of its entries, one of rank 2 the list of its
  rows. (An array with an axis of length 0 keeps no width in this representation.)\<close>

type_synonym vec = "real list"
type_synonym mat = "real list list"

definition mat_shape :: "mat \<Rightarrow> nat \<Rightarrow> nat \<Rightarrow> bool" where
  "mat_shape w n m = (length w = n \<and> list_all (\<lambda>r. length r = m) w)"

text \<open>Running a list of computations in order, stopping at the first exception.\<close>

fun sequence_err :: "('e + 'a) list \<Rightarrow> 'e + 'a list" where
  "sequence_err [] = Inr []"
| "sequence_err (r # rs) =
     (case r of
        Inl e \<Rightarrow> Inl e
      | Inr v \<Rightarrow> (case sequence_err rs of Inl e \<Rightarrow> Inl e | Inr vs \<Rightarrow> Inr (v # vs)))"

text \<open>numpy broadcasting of a binary operation, for two arrays of rank 1 and for two
  arrays of rank 2: axes of equal length are combined entry by entry, an axis of
  length 1 is repeated along the other operand's axis, anything else is refused.\<close>

definition broadcast1 :: "('a \<Rightarrow> 'b \<Rightarrow> 'c) \<Rightarrow> 'a list \<Rightarrow> 'b list \<Rightarrow> py_error + 'c list" where
  "broadcast1 f xs ys =
     (if length xs = length ys then Inr (map2 f xs ys)
      else if length xs = 1 then Inr (map (f (hd xs)) ys)
      else if length ys = 1 then Inr (map (\<lambda>x. f x (hd ys)) xs)
      else Inl ShapeError)"

definition broadcast2 ::
  "('a \<Rightarrow> 'b \<Rightarrow> 'c) \<Rightarrow> 'a list list \<Rightarrow> 'b list list \<Rightarrow> py_error + 'c list list" where
  "broadcast2 f xss yss =
     (case broadcast1 (broadcast1 f) xss yss of
        Inl e \<Rightarrow> Inl e
      | Inr rows \<Rightarrow> sequence_err rows)"

section \<open>jax.random\<close>

text \<open>
  A PRNG key is jax's default key: two unsigned 32-bit words.
  The generator itself is library code. The notebooks call \<open>split\<close>, \<open>normal\<close> and
  \<open>permutation\<close>, and the embedding takes them as a parameter, each at the type of
  its call site:
  \<^item> \<open>random_split\<close>: \<^verbatim>\<open>a, b = jax.random.split(key)\<close>;
  \<^item> \<open>random_split_num\<close>: \<^verbatim>\<open>jax.random.split(key, num)\<close>;
  \<^item> \<open>random_normal_mat\<close>, \<open>random_normal_vec\<close>:
    \<^verbatim>\<open>jax.random.normal(key, (n, m))\<close> and \<^verbatim>\<open>jax.random.normal(key, (n,))\<close>;
  \<^item> \<open>random_permutation\<close>: \<^verbatim>\<open>jax.random.permutation(key, x)\<close> for an int32 array
    \<open>x\<close> of rank 1.
\<close>

type_synonym key = "32 word \<times> 32 word"

record jax_random =
  random_split :: "key \<Rightarrow> key \<times> key"
  random_split_num :: "key \<Rightarrow> nat \<Rightarrow> key list"
  random_normal_mat :: "key \<Rightarrow> nat \<Rightarrow> nat \<Rightarrow> mat"
  random_normal_vec :: "key \<Rightarrow> nat \<Rightarrow> vec"
  random_permutation :: "key \<Rightarrow> 32 word list \<Rightarrow> 32 word list"

text \<open>What the library documents of these functions: \<open>split\<close> returns as many keys
  as asked for, \<open>normal\<close> an array of the shape asked for, and \<open>permutation\<close> a
  rearrangement of its argument.\<close>

definition split_num_ok :: "jax_random \<Rightarrow> bool" where
  "split_num_ok R = (\<forall>k n. length (random_split_num R k n) = n)"

definition normal_ok :: "jax_random \<Rightarrow> bool" where
  "normal_ok R =
     (\<forall>k n m. mat_shape (random_normal_mat R k n m) n m \<and> length (random_normal_vec R k n) = n)"

definition permutation_ok :: "jax_random \<Rightarrow> bool" where
  "permutation_ok R = (\<forall>k xs. mset (random_permutation R k xs) = mset xs)"

text \<open>A small deterministic generator with the documented behaviour, on which the
  theorems below are run at concrete inputs.\<close>

definition toy_random :: jax_random where
  "toy_random =
     \<lparr> random_split = (\<lambda>(a, b). ((a + 1, b), (a, b + 1))),
       random_split_num = (\<lambda>(a, b) n. map (\<lambda>i. (a, b + of_nat i)) [0..<n]),
       random_normal_mat = (\<lambda>(a, b) n m. replicate n (replicate m (real (unat a)))),
       random_normal_vec = (\<lambda>(a, b) n. replicate n (real (unat b))),
       random_permutation = (\<lambda>(a, b) xs. if a = 0 then rev xs else rotate1 (rev xs)) \<rparr>"

section \<open>Model parameters and forward pass\<close>

definition scale_vec :: "real \<Rightarrow> vec \<Rightarrow> vec" where
  "scale_vec c v = map (\<lambda>x. c * x) v"

definition scale_mat :: "real \<Rightarrow> mat \<Rightarrow> mat" where
  "scale_mat c w = map (scale_vec c) w"

text \<open>
  \<^verbatim>\<open>
  def random_layer_params(m, n, key, scale=1e-2):
      w_key, b_key = jax.random.split(key)
      return scale * jax.random.normal(w_key, (n, m)), scale * jax.random.normal(b_key, (n,))
  \<close>
\<close>

definition random_layer_params ::
  "jax_random \<Rightarrow> nat \<Rightarrow> nat \<Rightarrow> key \<Rightarrow> real \<Rightarrow> mat \<times> vec" where
  "random_layer_params R m n k scale =
     (case random_split R k of
        (w_key, b_key) \<Rightarrow>
          (scale_mat scale (random_normal_mat R w_key n m),
           scale_vec scale (random_normal_vec R b_key n)))"

text \<open>
  \<^verbatim>\<open>
  def init_network_params(sizes, key):
      keys = jax.random.split(key, len(sizes))
      return [random_layer_params(m, n, k) for m, n, k in zip(sizes[:-1], sizes[1:], keys)]
  \<close>
  \<open>sizes[:-1]\<close> is \<open>butlast sizes\<close>, \<open>sizes[1:]\<close> is \<open>tl sizes\<close>, and Python's
  \<open>zip\<close> stops with its shortest argument, as \<open>zip\<close> does. The call leaves
  \<open>scale\<close> at its default.
\<close>

definition init_network_params :: "jax_random \<Rightarrow> nat list \<Rightarrow> key \<Rightarrow> (mat \<times> vec) list" where
  "init_network_params R sizes k =
     (let keys = random_split_num R k (length sizes)
      in map (\<lambda>(m, n, k'). random_layer_params R m n k' (1 / 100))
           (zip (butlast sizes) (zip (tl sizes) keys)))"


text \<open>
  \<^verbatim>\<open>
  def relu(x):
      return jnp.maximum(0, x)
  \<close>
\<close>

definition relu :: "vec \<Rightarrow> vec" where
  "relu x = map (max 0) x"

text \<open>\<open>jnp.dot(w, x)\<close> for \<open>w\<close> of rank 2 and \<open>x\<close> of rank 1: every row of
  \<open>w\<close> must be as long as \<open>x\<close>.\<close>

definition dot :: "mat \<Rightarrow> vec \<Rightarrow> py_error + vec" where
  "dot w x =
     (if list_all (\<lambda>row. length row = length x) w
      then Inr (map (\<lambda>row. sum_list (map2 (*) row x)) w)
      else Inl ShapeError)"

text \<open>\<open>jnp.dot(w, x) + b\<close>.\<close>

definition dense :: "mat \<Rightarrow> vec \<Rightarrow> vec \<Rightarrow> py_error + vec" where
  "dense w b x = (case dot w x of Inl e \<Rightarrow> Inl e | Inr h \<Rightarrow> broadcast1 (+) h b)"

text \<open>
  \<^verbatim>\<open>
  def model_forward(params, x):
      for w, b in params[:-1]:
          x = jnp.dot(w, x) + b
          x = relu(x)
      final_w, final_b = params[-1]
      logits = jnp.dot(final_w, x) + final_b
      return logits
  \<close>
  \<open>forward_loop\<close> is the \<open>for\<close> loop. On an empty parameter list the loop runs
  over nothing and \<open>params[-1]\<close> raises IndexError.
\<close>

type_synonym params = "(mat \<times> vec) list"

fun forward_loop :: "params \<Rightarrow> vec \<Rightarrow> py_error + vec" where
  "forward_loop [] x = Inr x"
| "forward_loop ((w, b) # ps) x =
     (case dense w b x of Inl e \<Rightarrow> Inl e | Inr z \<Rightarrow> forward_loop ps (relu z))"

definition model_forward :: "params \<Rightarrow> vec \<Rightarrow> py_error + vec" where
  "model_forward params x =
     (case forward_loop (butlast params) x of
        Inl e \<Rightarrow> Inl e
      | Inr h \<Rightarrow>
          (if params = [] then Inl IndexError
           else (case last params of (final_w, final_b) \<Rightarrow> dense final_w final_b h)))"

text \<open>\<^verbatim>\<open>batched_forward = vmap(model_forward, in_axes=(None, 0), out_axes=0)\<close>:
  the forward pass of every row of the batch, stacked.\<close>

definition batched_forward :: "params \<Rightarrow> mat \<Rightarrow> py_error + mat" where
  "batched_forward params images = sequence_err (map (model_forward params) images)"

section \<open>Data loading\<close>

subsection \<open>Python values and numpy arrays\<close>

text \<open>
  What a dataset sample and a batch are made of: Python scalars (numbers; a numpy
  scalar counts as one), numpy arrays, tuples and lists. A numpy array is its shape and
  its entries in row-major order; its entries number the product of its shape. The
  entries are of any type \<open>'a\<close>: numpy's conversion between dtypes is not modelled.
\<close>

datatype 'a pyval =
    Scalar 'a
  | NdArray (array_shape: "nat list") (array_data: "'a list")
  | PyTuple "'a pyval list"
  | PyList "'a pyval list"

text \<open>\<open>isinstance(v, np.ndarray)\<close> and \<open>isinstance(v, (tuple, list))\<close>.\<close>

fun is_ndarray :: "'a pyval \<Rightarrow> bool" where
  "is_ndarray (NdArray s d) = True"
| "is_ndarray v = False"

fun is_tuple_or_list :: "'a pyval \<Rightarrow> bool" where
  "is_tuple_or_list (PyTuple xs) = True"
| "is_tuple_or_list (PyList xs) = True"
| "is_tuple_or_list v = False"

text \<open>The components of a tuple or list.\<close>

fun items :: "'a pyval \<Rightarrow> 'a pyval list" where
  "items (PyTuple xs) = xs"
| "items (PyList xs) = xs"
| "items v = []"

text \<open>
  numpy makes one array of a sequence of arrays of one common shape by putting them
  side by side along a new leading axis; the empty sequence gives the empty array of
  shape \<open>(0,)\<close>; arrays of different shapes are refused (numpy 1.24 and later).
\<close>

definition stack_arrays :: "(nat list \<times> 'a list) list \<Rightarrow> py_error + nat list \<times> 'a list" where
  "stack_arrays arrays =
     (case arrays of
        [] \<Rightarrow> Inr ([0], [])
      | a # rest \<Rightarrow>
          (if list_all (\<lambda>b. fst b = fst a) arrays
           then Inr (length arrays # fst a, concat (map snd arrays))
           else Inl ShapeError))"

text \<open>\<open>np.asanyarray(v)\<close>: a scalar is an array of rank 0, an array is itself, a
  tuple or list is the stack of its components.\<close>

fun as_array :: "'a pyval \<Rightarrow> py_error + nat list \<times> 'a list" where
  "as_array (Scalar v) = Inr ([], [v])"
| "as_array (NdArray s d) = Inr (s, d)"
| "as_array (PyTuple xs) =
     (case sequence_err (map as_array xs) of Inl e \<Rightarrow> Inl e | Inr arrays \<Rightarrow> stack_arrays arrays)"
| "as_array (PyList xs) =
     (case sequence_err (map as_array xs) of Inl e \<Rightarrow> Inl e | Inr arrays \<Rightarrow> stack_arrays arrays)"

text \<open>\<open>np.stack(arrays)\<close>: every element is made an array; at least one is needed, and
  all must have the same shape. \<open>np.array(batch)\<close>: the array of the sequence
  \<open>batch\<close>.\<close>

definition np_stack :: "'a pyval list \<Rightarrow> py_error + 'a pyval" where
  "np_stack arrays =
     (case sequence_err (map as_array arrays) of
        Inl e \<Rightarrow> Inl e
      | Inr as \<Rightarrow>
          (if as = [] then Inl ValueError
           else (case stack_arrays as of Inl e \<Rightarrow> Inl e | Inr (s, d) \<Rightarrow> Inr (NdArray s d))))"

definition np_array :: "'a pyval list \<Rightarrow> py_error + 'a pyval" where
  "np_array batch =
     (case as_array (PyList batch) of Inl e \<Rightarrow> Inl e | Inr (s, d) \<Rightarrow> Inr (NdArray s d))"

text \<open>
  Iterating a value, as \<open>zip\<close> does with each of its arguments. A scalar and an array
  of rank 0 are not iterable. An array of shape \<open>(n, ...)\<close> yields its \<open>n\<close>
  sub-arrays along the first axis; the entries of an array of rank 1 come out as numpy
  scalars, which are not arrays.
\<close>

definition sub_array :: "nat list \<Rightarrow> 'a list \<Rightarrow> 'a pyval" where
  "sub_array s chunk =
     (if s = [] then (case chunk of [v] \<Rightarrow> Scalar v | _ \<Rightarrow> NdArray [] chunk)
      else NdArray s chunk)"

fun iter_items :: "'a pyval \<Rightarrow> py_error + 'a pyval list" where
  "iter_items (Scalar v) = Inl TypeError"
| "iter_items (NdArray [] d) = Inl TypeError"
| "iter_items (NdArray (n # s) d) =
     Inr (map (\<lambda>i. sub_array s (take (prod_list s) (drop (i * prod_list s) d))) [0..<n])"
| "iter_items (PyTuple xs) = Inr xs"
| "iter_items (PyList xs) = Inr xs"

text \<open>\<open>zip(*batch)\<close>: the \<open>j\<close>-th tuple it yields holds the \<open>j\<close>-th item of every
  element of the batch; it stops with the shortest element.\<close>

definition shortest :: "'b list list \<Rightarrow> nat" where
  "shortest rows = fold min (map length rows) (length (hd rows))"

definition transpose_shortest :: "'b list list \<Rightarrow> 'b list list" where
  "transpose_shortest rows =
     (if rows = [] then [] else map (\<lambda>j. map (\<lambda>r. r ! j) rows) [0..<shortest rows])"

definition zip_star :: "'a pyval list \<Rightarrow> py_error + 'a pyval list list" where
  "zip_star batch =
     (case sequence_err (map iter_items batch) of
        Inl e \<Rightarrow> Inl e
      | Inr rows \<Rightarrow> Inr (transpose_shortest rows))"

subsection \<open>Collation\<close>

text \<open>The nesting depth of a value: the rank of an array, one more than the deepest
  component of a tuple or list. It bounds the recursion of \<open>numpy_collate\<close>.\<close>

definition list_max :: "nat list \<Rightarrow> nat" where
  "list_max ns = foldr max ns 0"

fun depth :: "'a pyval \<Rightarrow> nat" where
  "depth (Scalar v) = 0"
| "depth (NdArray s d) = length s"
| "depth (PyTuple xs) = Suc (list_max (map depth xs))"
| "depth (PyList xs) = Suc (list_max (map depth xs))"

definition batch_depth :: "'a pyval list \<Rightarrow> nat" where
  "batch_depth batch = list_max (map depth batch)"

lemma list_max_ge: "n \<in> set ns \<Longrightarrow> n \<le> list_max ns"
  by (induction ns) (auto simp: list_max_def)

lemma list_max_less: "ns \<noteq> [] \<Longrightarrow> \<forall>n \<in> set ns. n < m \<Longrightarrow> list_max ns < m"
proof (induction ns)
  case Nil
  then show ?case by simp
next
  case (Cons a ns)
  then show ?case by (cases "ns = []") (auto simp: list_max_def)
qed

lemma sequence_err_nth:
  "sequence_err rs = Inr vs \<Longrightarrow> length vs = length rs \<and> (\<forall>i < length rs. rs ! i = Inr (vs ! i))"
proof (induction rs arbitrary: vs)
  case Nil
  then show ?case by simp
next
  case (Cons r rs)
  then show ?case by (auto split: sum.splits simp: nth_Cons split: nat.splits)
qed

lemma iter_items_depth:
  assumes "iter_items b = Inr xs" and "x \<in> set xs"
  shows "depth x < depth b"
proof (cases b)
  case (Scalar v)
  with assms show ?thesis by simp
next
  case (NdArray s d)
  with assms show ?thesis
    by (cases s) (auto simp: sub_array_def split: list.splits)
next
  case (PyTuple ys)
  with assms list_max_ge [of "depth x" "map depth ys"] show ?thesis by auto
next
  case (PyList ys)
  with assms list_max_ge [of "depth x" "map depth ys"] show ?thesis by auto
qed

lemma shortest_le: "r \<in> set rows \<Longrightarrow> shortest rows \<le> length r"
proof -
  have "fold min ns a \<le> a \<and> (\<forall>n \<in> set ns. fold min ns a \<le> n)" for ns and a :: nat
  proof (induction ns arbitrary: a)
    case Nil
    then show ?case by simp
  next
    case (Cons n ns)
    from Cons [of "min n a"] show ?case by auto
  qed
  then show "r \<in> set rows \<Longrightarrow> shortest rows \<le> length r"
    by (simp add: shortest_def)
qed

lemma zip_star_depth:
  assumes "zip_star batch = Inr transposed" and "samples \<in> set transposed"
  shows "batch_depth samples < batch_depth batch"
proof -
  from assms(1) obtain rows where rows: "sequence_err (map iter_items batch) = Inr rows"
    and t: "transposed = transpose_shortest rows"
    by (auto simp: zip_star_def split: sum.splits)
  from sequence_err_nth [OF rows] have len: "length rows = length batch"
    and it: "\<And>i. i < length batch \<Longrightarrow> iter_items (batch ! i) = Inr (rows ! i)"
    by auto
  from assms(2) t obtain j where ne: "rows \<noteq> []" and j: "j < shortest rows"
    and s: "samples = map (\<lambda>r. r ! j) rows"
    by (auto simp: transpose_shortest_def split: if_splits)
  have "depth x < batch_depth batch" if "x \<in> set samples" for x
  proof -
    from that s obtain i where i: "i < length rows" and x: "x = rows ! i ! j"
      by (auto simp: in_set_conv_nth)
    from i j shortest_le [of "rows ! i" rows] have "j < length (rows ! i)" by simp
    then have "x \<in> set (rows ! i)" by (simp add: x)
    with it [of i] i len have "depth x < depth (batch ! i)"
      by (simp add: iter_items_depth)
    also from i len have "depth (batch ! i) \<le> batch_depth batch"
      unfolding batch_depth_def by (intro list_max_ge) simp
    finally show ?thesis .
  qed
  moreover from ne s have "map depth samples \<noteq> []" by simp
  ultimately show ?thesis
    unfolding batch_depth_def [of samples] by (intro list_max_less) auto
qed

text \<open>
  \<^verbatim>\<open>
  def numpy_collate(batch):
      if isinstance(batch[0], np.ndarray):
          return np.stack(batch)
      elif isinstance(batch[0], (tuple,list)):
          transposed = zip(*batch)
          return [numpy_collate(samples) for samples in transposed]
      else:
          return np.array(batch)
  \<close>
  \<open>batch[0]\<close> raises IndexError on the empty batch. The list comprehension runs the
  recursive calls in order and stops at the first that raises.
\<close>

function numpy_collate :: "'a pyval list \<Rightarrow> py_error + 'a pyval" where
  "numpy_collate batch =
     (case batch of
        [] \<Rightarrow> Inl IndexError
      | b0 # rest \<Rightarrow>
          (if is_ndarray b0 then np_stack batch
           else if is_tuple_or_list b0 then
             (case zip_star batch of
                Inl e \<Rightarrow> Inl e
              | Inr transposed \<Rightarrow>
                  (case sequence_err (map numpy_collate transposed) of
                     Inl e \<Rightarrow> Inl e
                   | Inr collated \<Rightarrow> Inr (PyList collated)))
           else np_array batch))"
  by pat_completeness auto
termination
  by (relation "measure batch_depth") (auto intro: zip_star_depth)

declare numpy_collate.simps [simp del]

text \<open>The sequence of the \<open>j\<close>-th components of the elements of a batch.\<close>

definition components :: "nat \<Rightarrow> 'a pyval list \<Rightarrow> 'a pyval list" where
  "components j batch = map (\<lambda>b. items b ! j) batch"

text \<open>The same recursion with a bound on its depth: \<open>None\<close> when a call would nest
  deeper than \<open>fuel\<close> calls.\<close>

fun numpy_collate_fuel :: "nat \<Rightarrow> 'a pyval list \<Rightarrow> (py_error + 'a pyval) option" where
  "numpy_collate_fuel 0 batch = None"
| "numpy_collate_fuel (Suc fuel) batch =
     (case batch of
        [] \<Rightarrow> Some (Inl IndexError)
      | b0 # rest \<Rightarrow>
          (if is_ndarray b0 then Some (np_stack batch)
           else if is_tuple_or_list b0 then
             (case zip_star batch of
                Inl e \<Rightarrow> Some (Inl e)
              | Inr transposed \<Rightarrow>
                  (case those (map (numpy_collate_fuel fuel) transposed) of
                     None \<Rightarrow> None
                   | Some results \<Rightarrow>
                       (case sequence_err results of
                          Inl e \<Rightarrow> Some (Inl e)
                        | Inr collated \<Rightarrow> Some (Inr (PyList collated)))))
           else Some (np_array batch)))"

subsection \<open>Samplers and the loader\<close>

text \<open>
  \<^verbatim>\<open>
  class JAXRandomSampler(Sampler):
      def __init__(self, data_source, rng_key):
          self.data_source = data_source
          self.rng_key = rng_key

      def __len__(self):
          return len(self.data_source)

      def __iter__(self):
          self.rng_key, current_rng = jax.random.split(self.rng_key)
          return iter(jax.random.permutation(current_rng, jnp.arange(len(self))).tolist())
  \<close>
  The samplers the loader chooses between are torch's \<open>SequentialSampler\<close>, whose
  \<open>__iter__\<close> is \<open>iter(range(len(self.data_source)))\<close>, and this one. \<open>rng_key\<close>
  may be \<open>None\<close>, the default of \<open>NumpyLoader\<close>; splitting \<open>None\<close> is a
  TypeError. \<open>__iter__\<close> returns the indices of one pass and the sampler as the call
  leaves it.

  \<open>jnp.arange(n)\<close> is an int32 array: its entries are 32-bit words, and an index
  from \<open>2^31\<close> up is not among their values (the definition takes the index
  modulo \<open>2^32\<close>; the properties below are stated for \<open>n \<le> 2^31\<close>, where
  every index is its own entry). \<open>tolist\<close> reads the entries as
  the signed Python integers they stand for. \<open>range(n)\<close> is a sequence of Python
  integers, which have no bound.
\<close>

definition arange :: "nat \<Rightarrow> 32 word list" where
  "arange n = map of_nat [0..<n]"

definition tolist :: "32 word list \<Rightarrow> int list" where
  "tolist a = map sint a"

datatype 'a sampler =
    SequentialSampler (data_source: "'a list")
  | JAXRandomSampler (data_source: "'a list") (rng_key: "key option")

definition sampler_len :: "'a sampler \<Rightarrow> nat" where
  "sampler_len self = length (data_source self)"

fun sampler_iter :: "jax_random \<Rightarrow> 'a sampler \<Rightarrow> py_error + int list \<times> 'a sampler" where
  "sampler_iter R (SequentialSampler ds) = Inr (map int [0..<length ds], SequentialSampler ds)"
| "sampler_iter R (JAXRandomSampler ds k) =
     (case k of
        None \<Rightarrow> Inl TypeError
      | Some k0 \<Rightarrow>
          (case random_split R k0 of
             (new_key, current_rng) \<Rightarrow>
               Inr (tolist (random_permutation R current_rng
                              (arange (sampler_len (JAXRandomSampler ds k)))),
                    JAXRandomSampler ds (Some new_key))))"






text \<open>
  \<^verbatim>\<open>
  class NumpyLoader(DataLoader):
      def __init__(self, dataset, rng_key=None, batch_size=1,
                   shuffle=False, **kwargs):
          if shuffle:
              sampler = JAXRandomSampler(dataset, rng_key)
          else:
              sampler = SequentialSampler(dataset)
          super().__init__(dataset, batch_size, sampler=sampler, **kwargs)
  \<close>
  Of torch's \<open>DataLoader\<close>: the keyword arguments the notebooks pass are
  \<open>collate_fn\<close> and \<open>drop_last\<close> (and \<open>num_workers=0\<close>, loading in the calling
  process); a batch size that is not positive is a ValueError. One pass draws the
  indices from the sampler, groups them in order into batches of \<open>batch_size\<close> (the
  last, shorter one is dropped under \<open>drop_last\<close>), fetches \<open>dataset[i]\<close> for the
  indices of a batch and collates them. A pass is the list of its batches, a batch
  whose fetch or collation raises being the \<open>Inl\<close> at which the pass stops.
  An index is a Python integer; \<open>dataset[i]\<close> counts a negative \<open>i\<close> from the end
  and raises IndexError outside the dataset.
\<close>

record ('a, 'b) loader_kwargs =
  kw_collate_fn :: "'a list \<Rightarrow> py_error + 'b"
  kw_drop_last :: bool

record ('a, 'b) DataLoader =
  dataset :: "'a list"
  batch_size :: nat
  sampler :: "'a sampler"
  collate_fn :: "'a list \<Rightarrow> py_error + 'b"
  drop_last :: bool

definition DataLoader_init ::
  "'a list \<Rightarrow> nat \<Rightarrow> 'a sampler \<Rightarrow> ('a, 'b) loader_kwargs \<Rightarrow> py_error + ('a, 'b) DataLoader" where
  "DataLoader_init ds bs smp kwargs =
     (if bs = 0 then Inl ValueError
      else Inr \<lparr> dataset = ds, batch_size = bs, sampler = smp,
                 collate_fn = kw_collate_fn kwargs, drop_last = kw_drop_last kwargs \<rparr>)"

definition NumpyLoader ::
  "'a list \<Rightarrow> key option \<Rightarrow> nat \<Rightarrow> bool \<Rightarrow> ('a, 'b) loader_kwargs \<Rightarrow>
   py_error + ('a, 'b) DataLoader" where
  "NumpyLoader ds k bs shuffle kwargs =
     (let smp = (if shuffle then JAXRandomSampler ds k else SequentialSampler ds)
      in DataLoader_init ds bs smp kwargs)"

fun batch_sampler :: "nat \<Rightarrow> bool \<Rightarrow> int list \<Rightarrow> int list \<Rightarrow> int list list" where
  "batch_sampler bs dl [] batch = (if 0 < length batch \<and> \<not> dl then [batch] else [])"
| "batch_sampler bs dl (idx # rest) batch =
     (if length (batch @ [idx]) = bs then (batch @ [idx]) # batch_sampler bs dl rest []
      else batch_sampler bs dl rest (batch @ [idx]))"

definition getitem :: "'a list \<Rightarrow> int \<Rightarrow> py_error + 'a" where
  "getitem ds i =
     (if 0 \<le> i \<and> i < int (length ds) then Inr (ds ! nat i)
      else if i < 0 \<and> - int (length ds) \<le> i then Inr (ds ! nat (int (length ds) + i))
      else Inl IndexError)"

definition fetch :: "'a list \<Rightarrow> int list \<Rightarrow> py_error + 'a list" where
  "fetch ds indices = sequence_err (map (getitem ds) indices)"

definition load_batch :: "('a, 'b) DataLoader \<Rightarrow> int list \<Rightarrow> py_error + 'b" where
  "load_batch loader indices =
     (case fetch (dataset loader) indices of
        Inl e \<Rightarrow> Inl e
      | Inr samples \<Rightarrow> collate_fn loader samples)"

definition DataLoader_iter ::
  "jax_random \<Rightarrow> ('a, 'b) DataLoader \<Rightarrow> py_error + (py_error + 'b) list \<times> ('a, 'b) DataLoader" where
  "DataLoader_iter R loader =
     (case sampler_iter R (sampler loader) of
        Inl e \<Rightarrow> Inl e
      | Inr (indices, smp) \<Rightarrow>
          Inr (map (load_batch loader)
                 (batch_sampler (batch_size loader) (drop_last loader) indices []),
               loader\<lparr>sampler := smp\<rparr>))"

section \<open>Training\<close>

text \<open>\<open>jax.scipy.special.logsumexp(a)\<close> with no \<open>axis\<close>: the logarithm of the sum
  of the exponentials of all entries of \<open>a\<close>, a scalar.\<close>

definition logsumexp :: "mat \<Rightarrow> real" where
  "logsumexp a = ln (sum_list (map exp (concat a)))"

definition mean :: "real list \<Rightarrow> real" where
  "mean xs = sum_list xs / real (length xs)"

text \<open>
  \<^verbatim>\<open>
  def loss(params, images, targets):
      logits = batched_forward(params, images)
      preds = logits - logsumexp(logits)
      return -jnp.mean(preds * targets)
  \<close>
  \<open>jnp.mean\<close> with no \<open>axis\<close> averages over all entries; over no entry it is nan.
\<close>

definition loss :: "params \<Rightarrow> mat \<Rightarrow> mat \<Rightarrow> py_error + real" where
  "loss params images targets =
     (case batched_forward params images of
        Inl e \<Rightarrow> Inl e
      | Inr logits \<Rightarrow>
          (let preds = map (map (\<lambda>v. v - logsumexp logits)) logits
           in case broadcast2 (*) preds targets of
                Inl e \<Rightarrow> Inl e
              | Inr prods \<Rightarrow>
                  (if concat prods = [] then Inl NotAReal else Inr (- mean (concat prods)))))"

text \<open>
  \<^verbatim>\<open>
  @jit
  def sgd_update(params, x, y, lr):
      grads = grad(loss)(params, x, y)
      return jax.tree_util.tree_map(lambda p, g: p - lr * g, params, grads)
  \<close>
  \<open>jax.grad\<close> is the library's automatic differentiation: \<open>grad f params\<close> is a
  parameter of the embedding. \<open>tree_map\<close> is written out for the pytree that
  \<open>params\<close> is, a list of (matrix, vector) pairs: it first checks that both trees
  have the same structure (ValueError), then applies the function leaf by leaf.
\<close>

type_synonym grad_fn = "(params \<Rightarrow> py_error + real) \<Rightarrow> params \<Rightarrow> py_error + params"

definition tree_map ::
  "(mat \<Rightarrow> mat \<Rightarrow> py_error + mat) \<Rightarrow> (vec \<Rightarrow> vec \<Rightarrow> py_error + vec) \<Rightarrow>
   params \<Rightarrow> params \<Rightarrow> py_error + params" where
  "tree_map fm fv tree rest =
     (if length tree \<noteq> length rest then Inl ValueError
      else sequence_err
        (map2 (\<lambda>(w, b) (gw, gb).
                 case fm w gw of
                   Inl e \<Rightarrow> Inl e
                 | Inr w' \<Rightarrow> (case fv b gb of Inl e \<Rightarrow> Inl e | Inr b' \<Rightarrow> Inr (w', b')))
           tree rest))"

definition sgd_update :: "grad_fn \<Rightarrow> params \<Rightarrow> mat \<Rightarrow> mat \<Rightarrow> real \<Rightarrow> py_error + params" where
  "sgd_update grad params x y lr =
     (case grad (\<lambda>p. loss p x y) params of
        Inl e \<Rightarrow> Inl e
      | Inr grads \<Rightarrow>
          tree_map (broadcast2 (\<lambda>p g. p - lr * g)) (broadcast1 (\<lambda>p g. p - lr * g))
            params grads)"

text \<open>
  \<^verbatim>\<open>
  def one_hot(x, k=10, dtype=jnp.float32):
      return jnp.array(x[:, None] == jnp.arange(k), dtype)
  \<close>
\<close>

definition one_hot :: "int list \<Rightarrow> nat \<Rightarrow> mat" where
  "one_hot x k = map (\<lambda>xi. map (\<lambda>j. if xi = int j then 1 else 0) [0..<k]) x"



text \<open>
  \<^verbatim>\<open>
  def accuracy(params, loader):
      total_acc = 0
      total_num = 0
      for x, y in loader:
          predicted_class = jnp.argmax(batched_forward(params, x), axis=1)
          total_num += len(x)
          total_acc += jnp.sum(predicted_class == y)
      return total_acc / total_num
  \<close>
  The loader is the list of the batches \<open>(x, y)\<close> one pass over it yields, \<open>y\<close> the
  numpy array of the labels, of rank 1 and of type int64. \<open>predicted_class\<close> is a jax
  array of int32; \<open>predicted_class == y\<close> narrows \<open>y\<close> to int32 and compares the
  int32 values (\<open>label_hit\<close>). \<open>accuracy_loop\<close> is the \<open>for\<close> loop over the state
  \<open>(total_acc, total_num)\<close>. Without a batch the final division is Python's \<open>0 / 0\<close>;
  after a batch \<open>total_acc\<close> is a jax array, whose division by 0 is nan.
\<close>

type_synonym loader = "(mat \<times> 64 word list) list"










text \<open>The quantities the training and evaluation code is meant to compute, written
  as the specification words them. The softmax cross-entropy of one row of logits
  against the class \<open>c\<close> is the logsumexp of the row minus the logit of \<open>c\<close>; the
  batch loss is its mean over the rows. A batch's number of correct predictions is the
  number of rows whose argmax is the row's label (the value of the int64 label).\<close>

definition row_cross_entropy :: "vec \<Rightarrow> nat \<Rightarrow> real" where
  "row_cross_entropy logits c = ln (sum_list (map exp logits)) - logits ! c"

definition mean_cross_entropy :: "mat \<Rightarrow> nat list \<Rightarrow> real" where
  "mean_cross_entropy logits labels =
     sum_list (map2 row_cross_entropy logits labels) / real (length logits)"







text \<open>Two parameter trees have the same structure and leaf shapes.\<close>

definition same_shapes :: "params \<Rightarrow> params \<Rightarrow> bool" where
  "same_shapes ps gs =
     list_all2 (\<lambda>(w, b) (gw, gb).
                  list_all2 (\<lambda>r gr. length r = length gr) w gw \<and> length b = length gb)
       ps gs"

text \<open>A stand-in for \<open>jax.grad\<close> on which the update is run at a concrete input: it
  returns a tree of ones of the shape of its argument.\<close>

definition ones_grad :: grad_fn where
  "ones_grad f p = Inr (map (\<lambda>(w, b). (map (map (\<lambda>v. 1)) w, map (\<lambda>v. 1) b)) p)"

section \<open>Properties\<close>

subsection \<open>Parameter initialisation\<close>

lemma mat_shape_scale_mat: "mat_shape w n m \<Longrightarrow> mat_shape (scale_mat c w) n m"
  by (simp add: mat_shape_def scale_mat_def scale_vec_def list_all_iff)

lemma init_network_params_length:
  assumes "length (random_split_num R k (length sizes)) = length sizes"
  shows "length (init_network_params R sizes k) = length sizes - 1"
  using assms by (simp add: init_network_params_def Let_def)

lemma init_network_params_nth:
  assumes "length (random_split_num R k (length sizes)) = length sizes"
    and "i < length sizes - 1"
  shows "init_network_params R sizes k ! i =
           random_layer_params R (sizes ! i) (sizes ! Suc i)
             (random_split_num R k (length sizes) ! i) (1 / 100)"
  using assms by (simp add: init_network_params_def Let_def nth_butlast nth_tl)

text \<open>
  Claim C6. For a size list of length \<open>L \<ge> 1\<close>, \<open>init_network_params\<close> returns
  exactly \<open>L - 1\<close> (weight, bias) pairs. The \<open>i\<close>-th pair is made from the
  \<open>i\<close>-th of the \<open>L\<close> keys the input key is split into: that key is split once
  more, the weight is \<open>1e-2\<close> times the normal sample of shape
  \<open>(sizes[i+1], sizes[i])\<close> drawn with the first half, and the bias \<open>1e-2\<close>
  times the normal sample of shape \<open>(sizes[i+1],)\<close> drawn with the second half.
\<close>

theorem init_network_params_shapes:
  assumes "1 \<le> length sizes" and "split_num_ok R" and "normal_ok R"
  shows "length (init_network_params R sizes k) = length sizes - 1 \<and>
         (\<forall>i < length sizes - 1.
            let ki = random_split_num R k (length sizes) ! i;
                w = fst (init_network_params R sizes k ! i);
                b = snd (init_network_params R sizes k ! i)
            in mat_shape w (sizes ! (i + 1)) (sizes ! i) \<and>
               length b = sizes ! (i + 1) \<and>
               w = scale_mat (1 / 100)
                     (random_normal_mat R (fst (random_split R ki)) (sizes ! (i + 1)) (sizes ! i)) \<and>
               b = scale_vec (1 / 100)
                     (random_normal_vec R (snd (random_split R ki)) (sizes ! (i + 1))))"
proof -
  have len: "length (random_split_num R k (length sizes)) = length sizes"
    using assms(2) unfolding split_num_ok_def by blast
  have shape: "mat_shape (random_normal_mat R k' n m) n m" for k' n m
    using assms(3) unfolding normal_ok_def by blast
  have vlen: "length (random_normal_vec R k' n) = n" for k' n
    using assms(3) unfolding normal_ok_def by blast
  show ?thesis
    using init_network_params_length [OF len] init_network_params_nth [OF len]
    by (auto simp: Let_def random_layer_params_def split: prod.splits
        intro!: mat_shape_scale_mat shape simp: scale_vec_def vlen)
qed

lemma toy_split_num_ok: "split_num_ok toy_random"
  by (simp add: split_num_ok_def toy_random_def)

lemma toy_normal_ok: "normal_ok toy_random"
  by (simp add: normal_ok_def toy_random_def mat_shape_def list_all_iff)

lemma mset_rotate1_eq: "mset (rotate1 xs) = mset xs"
  by (cases xs) simp_all

lemma toy_permutation_ok: "permutation_ok toy_random"
  by (simp add: permutation_ok_def toy_random_def mset_rotate1_eq)

theorem init_network_params_shapes_witness:
  "1 \<le> length [2, 3, 1 :: nat] \<and> split_num_ok toy_random \<and> normal_ok toy_random \<and>
   length (init_network_params toy_random [2, 3, 1] (5, 7)) = 2 \<and>
   mat_shape (fst (init_network_params toy_random [2, 3, 1] (5, 7) ! 1)) 1 3 \<and>
   length (snd (init_network_params toy_random [2, 3, 1] (5, 7) ! 1)) = 1 \<and>
   init_network_params toy_random [2, 3, 1] (5, 7) ! 1 = ([[6 / 100, 6 / 100, 6 / 100]], [9 / 100])"
proof -
  have h: "1 \<le> length [2, 3, 1 :: nat]" by simp
  note T = init_network_params_shapes [OF h toy_split_num_ok toy_normal_ok, of "(5, 7)"]
  have v: "init_network_params toy_random [2, 3, 1] (5, 7) ! 1 = ([[6 / 100, 6 / 100, 6 / 100]], [9 / 100])"
    by (simp add: init_network_params_def toy_random_def random_layer_params_def scale_mat_def scale_vec_def upt_rec numeral_3_eq_3)
  have len: "length (init_network_params toy_random [2, 3, 1] (5, 7)) = 2"
    using T by simp
  have p: "(1::nat) < length [2, 3, 1 :: nat] - 1" by simp
  note T1 = T [THEN conjunct2, rule_format, OF p, unfolded Let_def]
  from T1 have "mat_shape (fst (init_network_params toy_random [2, 3, 1] (5, 7) ! 1))
      ([2, 3, 1] ! (1 + 1)) ([2, 3, 1] ! 1)"
    by blast
  then have s1: "mat_shape (fst (init_network_params toy_random [2, 3, 1] (5, 7) ! 1)) 1 3"
    by simp
  from T1 have "length (snd (init_network_params toy_random [2, 3, 1] (5, 7) ! 1)) =
      [2, 3, 1] ! (1 + 1)"
    by blast
  then have s2: "length (snd (init_network_params toy_random [2, 3, 1] (5, 7) ! 1)) = 1"
    by simp
  show ?thesis
    using h toy_split_num_ok toy_normal_ok len s1 s2 v by blast
qed

subsection \<open>Helper facts on sequencing and broadcasting\<close>

lemma sequence_err_map_Inr: "sequence_err (map Inr xs) = Inr xs"
  by (induction xs) simp_all


lemma broadcast1_same_length:
  "length xs = length ys \<Longrightarrow> broadcast1 f xs ys = Inr (map2 f xs ys)"
  by (simp add: broadcast1_def)

lemma sequence_err_map2_broadcast1:
  "list_all2 (\<lambda>r s. length r = length s) xss yss \<Longrightarrow>
   sequence_err (map2 (broadcast1 f) xss yss) = Inr (map2 (map2 f) xss yss)"
  by (induction xss yss rule: list_all2_induct) (simp_all add: broadcast1_same_length)

lemma broadcast2_same_shape:
  assumes "list_all2 (\<lambda>r s. length r = length s) xss yss"
  shows "broadcast2 f xss yss = Inr (map2 (map2 f) xss yss)"
  using assms sequence_err_map2_broadcast1 [OF assms, of f]
  by (simp add: broadcast2_def broadcast1_same_length list_all2_lengthD)

lemma sum_list_pick:
  assumes "c < length xs"
  shows "sum_list (map2 (*) xs (map (\<lambda>j. if c = j then 1 else 0) [0..<length xs])) = (xs ! c :: real)"
proof -
  let ?zs = "map2 (*) xs (map (\<lambda>j. if c = j then 1 else (0::real)) [0..<length xs])"
  have "sum_list ?zs = (\<Sum>i = 0..<length xs. ?zs ! i)"
    by (simp add: sum_list_sum_nth)
  also have "\<dots> = (\<Sum>i = 0..<length xs. if c = i then xs ! i else 0)"
    by (rule sum.cong) auto
  also have "\<dots> = xs ! c"
    using assms by (simp add: sum.delta)
  finally show ?thesis .
qed

lemma sum_list_shift_pick:
  assumes "c < length xs"
  shows "sum_list (map2 (*) (map (\<lambda>v. v - L) xs) (map (\<lambda>j. if c = j then 1 else 0) [0..<length xs])) = (xs ! c - L :: real)"
  using sum_list_pick [of c "map (\<lambda>v. v - L) xs"] assms by simp

subsection \<open>The loss\<close>

text \<open>
  Claim C1, as stated, fails. The claim: \<open>loss\<close> is the mean over the batch rows of the
  softmax cross-entropy of the logits against the one-hot targets. On the one-layer
  network with zero weights, one image and two classes, the logits are \<open>[0, 0]\<close>, the
  cross-entropy of the only row is \<open>ln 2\<close>, and \<open>loss\<close> returns \<open>ln 2 / 2\<close>:
  \<open>jnp.mean\<close> divides by the number of entries of \<open>preds * targets\<close>, not by the
  number of rows.
\<close>

theorem loss_not_mean_cross_entropy:
  "batched_forward [([[0], [0]], [0, 0])] [[0]] = Inr [[0, 0]] \<and>
   loss [([[0], [0]], [0, 0])] [[0]] (one_hot [0] 2) = Inr (ln 2 / 2) \<and>
   mean_cross_entropy [[0, 0]] [0] = ln 2 \<and>
   loss [([[0], [0]], [0, 0])] [[0]] (one_hot [0] 2) \<noteq> Inr (mean_cross_entropy [[0, 0]] [0])"
proof -
  have f: "batched_forward [([[0], [0]], [0, 0])] [[0]] = Inr [[0, 0]]"
    by (simp add: batched_forward_def model_forward_def dense_def dot_def broadcast1_def)
  have l: "loss [([[0], [0]], [0, 0])] [[0]] (one_hot [0] 2) = Inr (ln 2 / 2)"
    by (simp add: loss_def f logsumexp_def one_hot_def broadcast2_def broadcast1_def mean_def
        upt_rec numeral_2_eq_2)
  have m: "mean_cross_entropy [[0, 0]] [0] = ln 2"
    by (simp add: mean_cross_entropy_def row_cross_entropy_def)
  have "ln 2 / 2 \<noteq> (ln 2 :: real)"
    using ln_gt_zero [of "2::real"] by simp
  with f l m show ?thesis by simp
qed

text \<open>With more than one row the logsumexp that \<open>loss\<close> subtracts is the one of the
  whole matrix of logits, not the one of each row: on two rows \<open>[0, 0]\<close> the result
  is \<open>ln 2\<close>, twice the mean over the rows of the cross-entropy divided by the number
  of classes.\<close>

lemma loss_two_rows:
  "loss [([[0], [0]], [0, 0])] [[0], [0]] (one_hot [0, 0] 2) = Inr (ln 2)"
proof -
  have f: "batched_forward [([[0], [0]], [0, 0])] [[0], [0]] = Inr [[0, 0], [0, 0]]"
    by (simp add: batched_forward_def model_forward_def dense_def dot_def broadcast1_def)
  have "ln (4::real) = 2 * ln 2"
    using ln_realpow [of 2 2] by simp
  then show ?thesis
    by (simp add: loss_def f logsumexp_def one_hot_def broadcast2_def broadcast1_def mean_def
        upt_rec numeral_2_eq_2)
qed

text \<open>
  Claim C1, amended. For a batch of one image whose logits are the row \<open>row\<close> of
  \<open>K\<close> entries, and the one-hot target of a class \<open>c < K\<close>, \<open>loss\<close> returns the
  softmax cross-entropy of the row against \<open>c\<close> (the logsumexp of the row minus the
  logit of \<open>c\<close>) divided by \<open>K\<close>.
\<close>

theorem loss_single_row:
  assumes "batched_forward params [img] = Inr [row]" and "c < length row"
  shows "loss params [img] (one_hot [int c] (length row)) =
           Inr (row_cross_entropy row c / real (length row))"
proof -
  let ?L = "ln (sum_list (map exp row))"
  let ?t = "map (\<lambda>j. if c = j then 1 else (0::real)) [0..<length row]"
  have b: "broadcast2 (*) [map (\<lambda>v. v - ?L) row] [?t] = Inr [map2 (*) (map (\<lambda>v. v - ?L) row) ?t]"
    by (simp add: broadcast2_same_shape)
  have ne: "map2 (*) (map (\<lambda>v. v - ?L) row) ?t \<noteq> []"
    using assms(2) by (cases row) auto
  have "loss params [img] (one_hot [int c] (length row)) =
          Inr (- ((row ! c - ?L) / real (length row)))"
    using assms ne
    by (simp add: loss_def logsumexp_def one_hot_def b mean_def sum_list_shift_pick)
  also have "- ((row ! c - ?L) / real (length row)) = row_cross_entropy row c / real (length row)"
    unfolding row_cross_entropy_def by (simp only: minus_divide_left minus_diff_eq)
  finally show ?thesis .
qed

theorem loss_single_row_witness:
  "batched_forward [([[1, -1]], [0]), ([[1], [2], [0]], [0, 0, 1])] [[3, 1]] = Inr [[2, 4, 1]] \<and>
   (1::nat) < length [2, 4, 1 :: real] \<and>
   loss [([[1, -1]], [0]), ([[1], [2], [0]], [0, 0, 1])] [[3, 1]] (one_hot [1] 3) =
     Inr (row_cross_entropy [2, 4, 1] 1 / 3)"
proof -
  have f: "batched_forward [([[1, -1]], [0]), ([[1], [2], [0]], [0, 0, 1])] [[3, 1]] = Inr [[2, 4, 1]]"
    by (simp add: batched_forward_def model_forward_def dense_def dot_def broadcast1_def relu_def)
  have c: "(1::nat) < length [2, 4, 1 :: real]" by simp
  have "loss [([[1, -1]], [0]), ([[1], [2], [0]], [0, 0, 1])] [[3, 1]] (one_hot [1] 3) =
     Inr (row_cross_entropy [2, 4, 1] 1 / 3)"
    using loss_single_row [OF f c] by (simp add: numeral_3_eq_3)
  with f c show ?thesis by blast
qed

subsection \<open>The gradient step\<close>

lemma tree_map_same_shapes:
  assumes "same_shapes ps gs"
  shows "tree_map (broadcast2 f) (broadcast1 f) ps gs =
           Inr (map2 (\<lambda>(w, b) (gw, gb). (map2 (map2 f) w gw, map2 f b gb)) ps gs)"
proof -
  have len: "length ps = length gs"
    using assms by (simp add: same_shapes_def list_all2_lengthD)
  have "sequence_err
          (map2 (\<lambda>(w, b) (gw, gb).
                   case broadcast2 f w gw of
                     Inl e \<Rightarrow> Inl e
                   | Inr w' \<Rightarrow> (case broadcast1 f b gb of Inl e \<Rightarrow> Inl e | Inr b' \<Rightarrow> Inr (w', b')))
             ps gs) =
        Inr (map2 (\<lambda>(w, b) (gw, gb). (map2 (map2 f) w gw, map2 f b gb)) ps gs)"
    using assms unfolding same_shapes_def
    by (induction ps gs rule: list_all2_induct)
       (auto simp: broadcast2_same_shape broadcast1_same_length)
  with len show ?thesis by (simp add: tree_map_def)
qed

lemma same_shapes_update:
  assumes "same_shapes ps gs"
  shows "same_shapes ps (map2 (\<lambda>(w, b) (gw, gb). (map2 (map2 f) w gw, map2 f b gb)) ps gs)"
  using assms unfolding same_shapes_def
proof (induction ps gs rule: list_all2_induct)
  case Nil
  then show ?case by simp
next
  case (Cons p ps g gs)
  obtain w b where p: "p = (w, b)" by (cases p)
  obtain gw gb where g: "g = (gw, gb)" by (cases g)
  from Cons(1) have rows: "list_all2 (\<lambda>r gr. length r = length gr) w gw" and "length b = length gb"
    by (simp_all add: p g)
  from rows have "list_all2 (\<lambda>r gr. length r = length gr) w (map2 (map2 f) w gw)"
    by (induction w gw rule: list_all2_induct) simp_all
  with Cons \<open>length b = length gb\<close> show ?case by (simp add: p g)
qed

text \<open>
  Claim C4. \<open>sgd_update\<close> returns a tree of the structure and leaf shapes of
  \<open>params\<close> in which every entry \<open>p\<close> of every leaf is \<open>p - lr * g\<close>, with
  \<open>g\<close> the entry at the same place of the gradient \<open>jax.grad\<close> returns for
  \<open>loss\<close> at \<open>(params, x, y)\<close>; nothing else enters the update. (\<open>jax.grad\<close>
  returns a tree of the structure and leaf shapes of its argument.)
\<close>

theorem sgd_update_leafwise:
  assumes "grad (\<lambda>p. loss p x y) params = Inr grads" and "same_shapes params grads"
  shows "\<exists>new. sgd_update grad params x y lr = Inr new \<and>
           same_shapes params new \<and>
           (\<forall>i < length params.
              (\<forall>r < length (fst (params ! i)). \<forall>c < length (fst (params ! i) ! r).
                 fst (new ! i) ! r ! c =
                   fst (params ! i) ! r ! c - lr * fst (grads ! i) ! r ! c) \<and>
              (\<forall>r < length (snd (params ! i)).
                 snd (new ! i) ! r = snd (params ! i) ! r - lr * snd (grads ! i) ! r))"
proof -
  let ?new = "map2 (\<lambda>(w, b) (gw, gb). (map2 (map2 (\<lambda>p g. p - lr * g)) w gw, map2 (\<lambda>p g. p - lr * g) b gb)) params grads"
  have run: "sgd_update grad params x y lr = Inr ?new"
    using assms by (simp add: sgd_update_def tree_map_same_shapes)
  have shp: "same_shapes params ?new"
    using assms(2) by (rule same_shapes_update)
  have len: "length params = length grads"
    using assms(2) by (simp add: same_shapes_def list_all2_lengthD)
  have leaf: "(\<forall>r < length (fst (params ! i)). \<forall>c < length (fst (params ! i) ! r).
                 fst (?new ! i) ! r ! c =
                   fst (params ! i) ! r ! c - lr * fst (grads ! i) ! r ! c) \<and>
              (\<forall>r < length (snd (params ! i)).
                 snd (?new ! i) ! r = snd (params ! i) ! r - lr * snd (grads ! i) ! r)"
    if i: "i < length params" for i
  proof -
    obtain w b where p: "params ! i = (w, b)" by (cases "params ! i")
    obtain gw gb where g: "grads ! i = (gw, gb)" by (cases "grads ! i")
    have "(\<lambda>(w, b) (gw, gb). list_all2 (\<lambda>r gr. length r = length gr) w gw \<and> length b = length gb)
            (params ! i) (grads ! i)"
      using assms(2) i unfolding same_shapes_def by (rule list_all2_nthD)
    then have rows: "list_all2 (\<lambda>r gr. length r = length gr) w gw" and b: "length b = length gb"
      by (simp_all add: p g)
    have n: "?new ! i = (map2 (map2 (\<lambda>p g. p - lr * g)) w gw, map2 (\<lambda>p g. p - lr * g) b gb)"
      using i len by (simp add: p g)
    have wl: "length w = length gw" using rows by (rule list_all2_lengthD)
    have rl: "length (w ! r) = length (gw ! r)" if "r < length w" for r
      using rows that by (rule list_all2_nthD)
    show ?thesis
      using wl rl b by (simp add: n p g)
  qed
  from run shp leaf show ?thesis by blast
qed

theorem sgd_update_leafwise_witness:
  "ones_grad (\<lambda>p. loss p [[3, 1]] (one_hot [1] 3)) [([[1, -1]], [0]), ([[1], [2], [0]], [0, 0, 1])] =
     Inr [([[1, 1]], [1]), ([[1], [1], [1]], [1, 1, 1])] \<and>
   same_shapes [([[1, -1]], [0]), ([[1], [2], [0]], [0, 0, 1])]
     [([[1, 1]], [1]), ([[1], [1], [1]], [1, 1, 1])] \<and>
   sgd_update ones_grad [([[1, -1]], [0]), ([[1], [2], [0]], [0, 0, 1])] [[3, 1]] (one_hot [1] 3) (1 / 2) =
     Inr [([[1 / 2, - 3 / 2]], [- 1 / 2]), ([[1 / 2], [3 / 2], [- 1 / 2]], [- 1 / 2, - 1 / 2, 1 / 2])] \<and>
   same_shapes [([[1, -1]], [0]), ([[1], [2], [0]], [0, 0, 1])]
     [([[1 / 2, - 3 / 2]], [- 1 / 2]), ([[1 / 2], [3 / 2], [- 1 / 2]], [- 1 / 2, - 1 / 2, 1 / 2])]"
proof -
  let ?P = "[([[1, -1]], [0]), ([[1], [2], [0]], [0, 0, 1 :: real])] :: params"
  let ?G = "[([[1, 1]], [1]), ([[1], [1], [1]], [1, 1, 1 :: real])] :: params"
  have g: "ones_grad (\<lambda>p. loss p [[3, 1]] (one_hot [1] 3)) ?P = Inr ?G"
    by (simp add: ones_grad_def)
  have s: "same_shapes ?P ?G"
    by (simp add: same_shapes_def)
  have v: "sgd_update ones_grad ?P [[3, 1]] (one_hot [1] 3) (1 / 2) =
     Inr [([[1 / 2, - 3 / 2]], [- 1 / 2]), ([[1 / 2], [3 / 2], [- 1 / 2]], [- 1 / 2, - 1 / 2, 1 / 2])]"
    by (simp add: sgd_update_def g tree_map_def broadcast2_def broadcast1_def)
  note T = sgd_update_leafwise [where grad = ones_grad and params = "?P" and grads = "?G"
      and x = "[[3, 1]]" and y = "one_hot [1] 3" and lr = "1 / 2", OF g s]
  from T obtain new where n: "sgd_update ones_grad ?P [[3, 1]] (one_hot [1] 3) (1 / 2) = Inr new"
    and sn: "same_shapes ?P new"
    by blast
  from n v have "new = [([[1 / 2, - 3 / 2]], [- 1 / 2]), ([[1 / 2], [3 / 2], [- 1 / 2]], [- 1 / 2, - 1 / 2, 1 / 2])]"
    by simp
  with sn g s v show ?thesis by blast
qed

subsection \<open>Evaluation\<close>





















subsection \<open>Collation\<close>

lemma numpy_collate_Nil: "numpy_collate [] = Inl IndexError"
  by (subst numpy_collate.simps) simp

lemma numpy_collate_Cons:
  "numpy_collate (b0 # rest) =
     (if is_ndarray b0 then np_stack (b0 # rest)
      else if is_tuple_or_list b0 then
        (case zip_star (b0 # rest) of
           Inl e \<Rightarrow> Inl e
         | Inr transposed \<Rightarrow>
             (case sequence_err (map numpy_collate transposed) of
                Inl e \<Rightarrow> Inl e
              | Inr collated \<Rightarrow> Inr (PyList collated)))
      else np_array (b0 # rest))"
  by (subst numpy_collate.simps) simp

lemma sequence_err_Inl: "sequence_err rs = Inl e \<Longrightarrow> Inl e \<in> set rs"
  by (induction rs) (auto split: sum.splits)

lemma sequence_err_all_Inr:
  "\<forall>r \<in> set rs. \<exists>v. r = Inr v \<Longrightarrow> \<exists>vs. sequence_err rs = Inr vs"
  by (induction rs) auto

lemma those_map_Some: "those (map (\<lambda>x. Some (f x)) xs) = Some (map f xs)"
  by (induction xs) simp_all

lemma shortest_common:
  assumes "rows \<noteq> []" and "\<forall>r \<in> set rows. length r = k"
  shows "shortest rows = k"
proof -
  have "fold min ns k = k" if "\<forall>n \<in> set ns. n = k" for ns
    using that by (induction ns) simp_all
  moreover from assms have "length (hd rows) = k" by (cases rows) simp_all
  ultimately show ?thesis
    using assms(2) by (simp add: shortest_def)
qed

lemma zip_star_sequences:
  assumes "batch \<noteq> []" and "\<forall>b \<in> set batch. is_tuple_or_list b \<and> length (items b) = k"
  shows "zip_star batch = Inr (map (\<lambda>j. components j batch) [0..<k])"
proof -
  have it: "iter_items b = Inr (items b)" if "is_tuple_or_list b" for b :: "'a pyval"
    using that by (cases b) simp_all
  have "map iter_items batch = map Inr (map items batch)"
    using assms(2) by (simp add: it)
  then have rows: "sequence_err (map iter_items batch) = Inr (map items batch)"
    by (simp only: sequence_err_map_Inr)
  have "shortest (map items batch) = k"
    using assms by (intro shortest_common) auto
  then have "transpose_shortest (map items batch) = map (\<lambda>j. components j batch) [0..<k]"
    using assms(1) by (simp add: transpose_shortest_def components_def comp_def)
  with rows show ?thesis by (simp add: zip_star_def)
qed

lemma np_stack_common_shape:
  assumes "batch \<noteq> []" and "\<forall>b \<in> set batch. is_ndarray b \<and> array_shape b = s"
  shows "np_stack batch = Inr (NdArray (length batch # s) (concat (map array_data batch)))"
proof -
  have a: "as_array b = Inr (array_shape b, array_data b)" if "is_ndarray b" for b :: "'a pyval"
    using that by (cases b) simp_all
  have "map as_array batch = map Inr (map (\<lambda>b. (array_shape b, array_data b)) batch)"
    using assms(2) by (simp add: a)
  then have arrays: "sequence_err (map as_array batch) =
      Inr (map (\<lambda>b. (array_shape b, array_data b)) batch)"
    by (simp only: sequence_err_map_Inr)
  have "stack_arrays (map (\<lambda>b. (array_shape b, array_data b)) batch) =
      Inr (length batch # s, concat (map array_data batch))"
    using assms by (cases batch) (auto simp: stack_arrays_def list_all_iff comp_def)
  with arrays assms(1) show ?thesis by (simp add: np_stack_def)
qed

text \<open>
  Claim C3. For a non-empty batch whose elements are tuples or lists of a common length
  \<open>k\<close>, \<open>numpy_collate\<close> collates, for \<open>j\<close> from 0 to \<open>k - 1\<close> in order, the
  sequence of the \<open>j\<close>-th components of the elements, and returns the list of the
  \<open>k\<close> results (it raises what the first failing of these calls raises). For a
  non-empty batch of arrays of a common shape it returns the one array that stacks them
  along a new leading axis.
\<close>

theorem numpy_collate_transposes_and_stacks:
  "(batch \<noteq> [] \<and> (\<forall>b \<in> set batch. is_tuple_or_list b \<and> length (items b) = k) \<longrightarrow>
      numpy_collate batch =
        (case sequence_err (map (\<lambda>j. numpy_collate (components j batch)) [0..<k]) of
           Inl e \<Rightarrow> Inl e
         | Inr collated \<Rightarrow> Inr (PyList collated)) \<and>
      (\<forall>v. numpy_collate batch = Inr v \<longrightarrow>
         (\<exists>collated. v = PyList collated \<and> length collated = k \<and>
            (\<forall>j < k. numpy_collate (components j batch) = Inr (collated ! j)))) \<and>
      ((\<forall>j < k. \<exists>r. numpy_collate (components j batch) = Inr r) \<longrightarrow>
         (\<exists>v. numpy_collate batch = Inr v))) \<and>
   (batch \<noteq> [] \<and> (\<forall>b \<in> set batch. is_ndarray b \<and> array_shape b = s) \<longrightarrow>
      numpy_collate batch = Inr (NdArray (length batch # s) (concat (map array_data batch))))"
proof (intro conjI impI)
  assume h: "batch \<noteq> [] \<and> (\<forall>b \<in> set batch. is_tuple_or_list b \<and> length (items b) = k)"
  then obtain b0 rest where b: "batch = b0 # rest" by (cases batch) auto
  from h b have t: "is_tuple_or_list b0" and n: "\<not> is_ndarray b0"
    by (cases b0; simp)+
  let ?calls = "map (\<lambda>j. numpy_collate (components j batch)) [0..<k]"
  have z: "zip_star batch = Inr (map (\<lambda>j. components j batch) [0..<k])"
    using h by (intro zip_star_sequences) auto
  show eq: "numpy_collate batch =
      (case sequence_err ?calls of Inl e \<Rightarrow> Inl e | Inr collated \<Rightarrow> Inr (PyList collated))"
    using z t n unfolding b by (simp add: numpy_collate_Cons comp_def)
  show "\<forall>v. numpy_collate batch = Inr v \<longrightarrow>
         (\<exists>collated. v = PyList collated \<and> length collated = k \<and>
            (\<forall>j < k. numpy_collate (components j batch) = Inr (collated ! j)))"
  proof (intro allI impI)
    fix v
    assume "numpy_collate batch = Inr v"
    with eq obtain collated where s: "sequence_err ?calls = Inr collated" and v: "v = PyList collated"
      by (auto split: sum.splits)
    from sequence_err_nth [OF s] have "length collated = k"
      and "\<forall>j < k. numpy_collate (components j batch) = Inr (collated ! j)"
      by auto
    with v show "\<exists>collated. v = PyList collated \<and> length collated = k \<and>
            (\<forall>j < k. numpy_collate (components j batch) = Inr (collated ! j))"
      by blast
  qed
  show "\<exists>v. numpy_collate batch = Inr v"
    if "\<forall>j < k. \<exists>r. numpy_collate (components j batch) = Inr r"
  proof -
    from that have "\<forall>r \<in> set ?calls. \<exists>v. r = Inr v" by auto
    from sequence_err_all_Inr [OF this] obtain vs where "sequence_err ?calls = Inr vs" ..
    with eq show ?thesis by simp
  qed
next
  assume h: "batch \<noteq> [] \<and> (\<forall>b \<in> set batch. is_ndarray b \<and> array_shape b = s)"
  then obtain b0 rest where b: "batch = b0 # rest" by (cases batch) auto
  from h b have "is_ndarray b0" by simp
  moreover from h have "np_stack batch =
      Inr (NdArray (length batch # s) (concat (map array_data batch)))"
    by (intro np_stack_common_shape) auto
  ultimately show "numpy_collate batch =
      Inr (NdArray (length batch # s) (concat (map array_data batch)))"
    unfolding b by (simp add: numpy_collate_Cons)
qed

theorem numpy_collate_transposes_and_stacks_witness:
  "numpy_collate [PyTuple [NdArray [2] [1, 2], Scalar 7], PyTuple [NdArray [2] [3, 4], Scalar 9]] =
     Inr (PyList [NdArray [2, 2] [1, 2, 3, 4], NdArray [2] [7, 9 :: nat]]) \<and>
   numpy_collate [NdArray [2] [1, 2], NdArray [2] [3, 4 :: nat]] =
     Inr (NdArray [2, 2] [1, 2, 3, 4])"
proof -
  let ?B = "[PyTuple [NdArray [2] [1, 2], Scalar 7], PyTuple [NdArray [2] [3, 4], Scalar 9 :: nat pyval]]"
  let ?A = "[NdArray [2] [1, 2], NdArray [2] [3, 4 :: nat]]"
  have hB: "?B \<noteq> [] \<and> (\<forall>b \<in> set ?B. is_tuple_or_list b \<and> length (items b) = 2)"
    by simp
  have hA: "?A \<noteq> [] \<and> (\<forall>b \<in> set ?A. is_ndarray b \<and> array_shape b = [2])"
    by simp
  have c0: "numpy_collate (components 0 ?B) = Inr (NdArray [2, 2] [1, 2, 3, 4])"
    by (simp add: components_def numpy_collate_Cons np_stack_def stack_arrays_def)
  have c1: "numpy_collate (components 1 ?B) = Inr (NdArray [2] [7, 9])"
    by (simp add: components_def numpy_collate_Cons np_array_def stack_arrays_def)
  have two: "[0..<2] = [0, 1]"
    by (simp add: upt_rec)
  from numpy_collate_transposes_and_stacks [of ?B 2] hB
  have "numpy_collate ?B =
      (case sequence_err (map (\<lambda>j. numpy_collate (components j ?B)) [0..<2]) of
         Inl e \<Rightarrow> Inl e
       | Inr collated \<Rightarrow> Inr (PyList collated))"
    by blast
  then have b: "numpy_collate ?B = Inr (PyList [NdArray [2, 2] [1, 2, 3, 4], NdArray [2] [7, 9]])"
    by (simp only: two list.map c0 c1 sequence_err.simps sum.case)
  from numpy_collate_transposes_and_stacks [of ?A _ "[2]"] hA
  have "numpy_collate ?A = Inr (NdArray (length ?A # [2]) (concat (map array_data ?A)))"
    by blast
  then have a: "numpy_collate ?A = Inr (NdArray [2, 2] [1, 2, 3, 4])"
    by simp
  from a b show ?thesis by blast
qed

subsection \<open>When collation returns\<close>

lemma stack_arrays_error: "stack_arrays arrays = Inl e \<Longrightarrow> e = ShapeError"
  by (auto simp: stack_arrays_def split: list.splits if_splits)

lemma as_array_error: "as_array v = Inl e \<Longrightarrow> e = ShapeError"
proof (induction v rule: as_array.induct)
  case (1 v)
  then show ?case by simp
next
  case (2 s d)
  then show ?case by simp
next
  case (3 xs)
  show ?case
  proof (cases "sequence_err (map as_array xs)")
    case (Inl e')
    with 3(2) have "e' = e" by simp
    with Inl sequence_err_Inl have "Inl e \<in> set (map as_array xs)" by fastforce
    with 3(1) show ?thesis by auto
  next
    case (Inr arrays)
    with 3(2) show ?thesis by (simp add: stack_arrays_error)
  qed
next
  case (4 xs)
  show ?case
  proof (cases "sequence_err (map as_array xs)")
    case (Inl e')
    with 4(2) have "e' = e" by simp
    with Inl sequence_err_Inl have "Inl e \<in> set (map as_array xs)" by fastforce
    with 4(1) show ?thesis by auto
  next
    case (Inr arrays)
    with 4(2) show ?thesis by (simp add: stack_arrays_error)
  qed
qed

lemma np_stack_not_IndexError: "np_stack batch \<noteq> Inl IndexError"
proof
  assume a: "np_stack batch = Inl IndexError"
  show False
  proof (cases "sequence_err (map as_array batch)")
    case (Inl e)
    with a have "e = IndexError" by (simp add: np_stack_def)
    with Inl sequence_err_Inl have "Inl IndexError \<in> set (map as_array batch)" by fastforce
    then show False by (auto dest: as_array_error [OF sym])
  next
    case (Inr arrays)
    with a show False
      by (auto simp: np_stack_def split: if_splits sum.splits dest: stack_arrays_error)
  qed
qed

lemma np_array_not_IndexError: "np_array batch \<noteq> Inl IndexError"
proof
  assume "np_array batch = Inl IndexError"
  then have "as_array (PyList batch) = Inl IndexError"
    by (simp add: np_array_def split: sum.splits prod.splits del: as_array.simps)
  from as_array_error [OF this] show False by simp
qed

lemma iter_items_error: "iter_items v = Inl e \<Longrightarrow> e = TypeError"
  by (cases v rule: iter_items.cases) simp_all

lemma zip_star_error: "zip_star batch = Inl e \<Longrightarrow> e = TypeError"
proof -
  assume "zip_star batch = Inl e"
  then have "sequence_err (map iter_items batch) = Inl e"
    by (simp add: zip_star_def split: sum.splits)
  from sequence_err_Inl [OF this] show "e = TypeError"
    by (auto dest: iter_items_error [OF sym])
qed

lemma zip_star_length:
  assumes "zip_star batch = Inr transposed" and "samples \<in> set transposed"
  shows "length samples = length batch"
proof -
  from assms(1) obtain rows where rows: "sequence_err (map iter_items batch) = Inr rows"
    and t: "transposed = transpose_shortest rows"
    by (auto simp: zip_star_def split: sum.splits)
  from sequence_err_nth [OF rows] have "length rows = length batch" by simp
  with assms(2) t show ?thesis
    by (auto simp: transpose_shortest_def split: if_splits)
qed

lemma numpy_collate_IndexError: "numpy_collate batch = Inl IndexError \<Longrightarrow> batch = []"
proof (induction batch rule: numpy_collate.induct)
  case (1 batch)
  show ?case
  proof (cases batch)
    case Nil
    then show ?thesis .
  next
    case (Cons b0 rest)
    show ?thesis
    proof (cases "is_ndarray b0")
      case True
      with 1(2) Cons np_stack_not_IndexError [of batch] show ?thesis
        by (simp add: numpy_collate_Cons)
    next
      case nd: False
      show ?thesis
      proof (cases "is_tuple_or_list b0")
        case False
        with nd 1(2) Cons np_array_not_IndexError [of batch] show ?thesis
          by (simp add: numpy_collate_Cons)
      next
        case tl: True
        show ?thesis
        proof (cases "zip_star batch")
          case (Inl e)
          with zip_star_error [OF Inl] nd tl 1(2) Cons show ?thesis
            by (simp add: numpy_collate_Cons)
        next
          case (Inr transposed)
          with nd tl 1(2) Cons
          have "sequence_err (map numpy_collate transposed) = Inl IndexError"
            by (simp add: numpy_collate_Cons split: sum.splits)
          from sequence_err_Inl [OF this] obtain samples
            where s: "samples \<in> set transposed" and c: "numpy_collate samples = Inl IndexError"
            by auto
          from 1(1) [OF Cons nd tl Inr s c] have "samples = []" .
          with zip_star_length [OF Inr s] Cons show ?thesis by simp
        qed
      qed
    qed
  qed
qed

text \<open>
  Claim C8, as stated, fails. The claim: a non-empty batch is exactly what
  \<open>numpy_collate\<close> needs to return a value. A batch of two arrays of shapes
  \<open>(2,)\<close> and \<open>(3,)\<close> is not empty, and \<open>np.stack\<close> refuses it.
\<close>

theorem numpy_collate_nonempty_raises:
  "[NdArray [2] [0, 0], NdArray [3] [0, 0, 0 :: nat]] \<noteq> [] \<and>
   numpy_collate [NdArray [2] [0, 0], NdArray [3] [0, 0, 0 :: nat]] = Inl ShapeError"
  by (simp add: numpy_collate_Cons np_stack_def stack_arrays_def)

text \<open>
  Claim C8, amended. \<open>numpy_collate\<close> raises IndexError exactly on the empty batch,
  where \<open>batch[0]\<close> fails before any branch is reached. On a non-empty batch the
  dispatch on \<open>batch[0]\<close> is total: the call is \<open>np.stack(batch)\<close>, the list of the
  collated columns of \<open>zip(*batch)\<close>, or \<open>np.array(batch)\<close>, and it returns a value
  unless that branch raises.
\<close>

theorem numpy_collate_IndexError_iff:
  "(numpy_collate batch = Inl IndexError \<longleftrightarrow> batch = []) \<and>
   numpy_collate (b0 # rest) =
     (if is_ndarray b0 then np_stack (b0 # rest)
      else if is_tuple_or_list b0 then
        (case zip_star (b0 # rest) of
           Inl e \<Rightarrow> Inl e
         | Inr transposed \<Rightarrow>
             (case sequence_err (map numpy_collate transposed) of
                Inl e \<Rightarrow> Inl e
              | Inr collated \<Rightarrow> Inr (PyList collated)))
      else np_array (b0 # rest))"
  using numpy_collate_IndexError [of batch] numpy_collate_Nil numpy_collate_Cons [of b0 rest]
  by blast

theorem numpy_collate_IndexError_iff_witness:
  "numpy_collate ([] :: nat pyval list) = Inl IndexError \<and>
   numpy_collate [Scalar (3 :: nat), Scalar 4] \<noteq> Inl IndexError \<and>
   numpy_collate [Scalar (3 :: nat), Scalar 4] = Inr (NdArray [2] [3, 4])"
proof -
  have "numpy_collate ([] :: nat pyval list) = Inl IndexError"
    using numpy_collate_IndexError_iff [of "[] :: nat pyval list"] by blast
  moreover have "numpy_collate [Scalar (3 :: nat), Scalar 4] \<noteq> Inl IndexError"
    using numpy_collate_IndexError_iff [of "[Scalar (3 :: nat), Scalar 4]"] by blast
  moreover have "numpy_collate [Scalar (3 :: nat), Scalar 4] = Inr (NdArray [2] [3, 4])"
    using numpy_collate_IndexError_iff [of "[]" "Scalar (3 :: nat)" "[Scalar 4]", THEN conjunct2]
    by (simp add: np_array_def stack_arrays_def numeral_2_eq_2)
  ultimately show ?thesis by blast
qed

subsection \<open>Termination of collation\<close>

text \<open>
  Claim C9. \<open>numpy_collate\<close> terminates on every batch of finitely nested values:
  each recursive call is on a sequence of components whose nesting depth is strictly
  smaller than the batch's, so a batch of depth \<open>d\<close> is collated within \<open>d + 1\<close>
  nested calls.
\<close>

theorem numpy_collate_terminates:
  "(zip_star batch = Inr transposed \<and> samples \<in> set transposed \<longrightarrow>
      batch_depth samples < batch_depth batch) \<and>
   (batch_depth batch < fuel \<longrightarrow> numpy_collate_fuel fuel batch = Some (numpy_collate batch))"
proof
  show "zip_star batch = Inr transposed \<and> samples \<in> set transposed \<longrightarrow>
      batch_depth samples < batch_depth batch"
    using zip_star_depth by blast
  show "batch_depth batch < fuel \<longrightarrow> numpy_collate_fuel fuel batch = Some (numpy_collate batch)"
  proof (induction fuel arbitrary: batch)
    case 0
    then show ?case by simp
  next
    case (Suc fuel)
    show ?case
    proof
      assume d: "batch_depth batch < Suc fuel"
      show "numpy_collate_fuel (Suc fuel) batch = Some (numpy_collate batch)"
      proof (cases batch)
        case Nil
        then show ?thesis by (simp add: numpy_collate_Nil)
      next
        case (Cons b0 rest)
        show ?thesis
        proof (cases "zip_star batch")
          case (Inl e)
          with Cons show ?thesis by (simp add: numpy_collate_Cons)
        next
          case (Inr transposed)
          have "numpy_collate_fuel fuel s = Some (numpy_collate s)" if "s \<in> set transposed" for s
          proof -
            from zip_star_depth [OF Inr that] d have "batch_depth s < fuel" by simp
            with Suc.IH show ?thesis by blast
          qed
          then have "map (numpy_collate_fuel fuel) transposed =
              map (\<lambda>s. Some (numpy_collate s)) transposed"
            by simp
          then have "those (map (numpy_collate_fuel fuel) transposed) =
              Some (map numpy_collate transposed)"
            by (simp only: those_map_Some)
          with Cons Inr show ?thesis
            by (simp add: numpy_collate_Cons split: sum.splits)
        qed
      qed
    qed
  qed
qed

theorem numpy_collate_terminates_witness:
  "batch_depth [PyTuple [NdArray [2] [5, 6], Scalar 7], PyTuple [NdArray [2] [3, 4], Scalar (9 :: nat)]] < 3 \<and>
   numpy_collate_fuel 3
     [PyTuple [NdArray [2] [5, 6], Scalar 7], PyTuple [NdArray [2] [3, 4], Scalar (9 :: nat)]] =
     Some (Inr (PyList [NdArray [2, 2] [5, 6, 3, 4], NdArray [2] [7, 9]])) \<and>
   numpy_collate_fuel 1
     [PyTuple [NdArray [2] [5, 6], Scalar 7], PyTuple [NdArray [2] [3, 4], Scalar (9 :: nat)]] =
     None"
proof -
  let ?B = "[PyTuple [NdArray [2] [5, 6], Scalar 7], PyTuple [NdArray [2] [3, 4], Scalar (9 :: nat)]]"
  have d: "batch_depth ?B < 3"
    by (simp add: batch_depth_def list_max_def)
  have z: "zip_star ?B = Inr [[NdArray [2] [5, 6], NdArray [2] [3, 4]], [Scalar 7, Scalar 9]]"
    by (simp add: zip_star_def transpose_shortest_def shortest_def upt_rec)
  have v: "numpy_collate ?B = Inr (PyList [NdArray [2, 2] [5, 6, 3, 4], NdArray [2] [7, 9]])"
    by (simp add: numpy_collate_Cons z np_stack_def np_array_def stack_arrays_def)
  from numpy_collate_terminates [of ?B _ _ 3] d
  have "numpy_collate_fuel 3 ?B = Some (numpy_collate ?B)"
    by blast
  with v have f: "numpy_collate_fuel 3 ?B =
      Some (Inr (PyList [NdArray [2, 2] [5, 6, 3, 4], NdArray [2] [7, 9]]))"
    by simp
  have "numpy_collate_fuel (Suc 0) ?B = None"
    by (simp add: z)
  then have n: "numpy_collate_fuel 1 ?B = None"
    by simp
  from d f n show ?thesis by blast
qed

subsection \<open>The random sampler\<close>

lemma sampler_iter_JAXRandomSampler:
  "sampler_iter R (JAXRandomSampler ds (Some k)) =
     Inr (tolist (random_permutation R (snd (random_split R k)) (arange (length ds))),
          JAXRandomSampler ds (Some (fst (random_split R k))))"
  by (simp add: sampler_len_def split: prod.splits)

lemma sint_of_nat_int32: "i < 2 ^ 31 \<Longrightarrow> sint (of_nat i :: 32 word) = int i"
proof -
  assume a: "i < 2 ^ 31"
  have "(of_nat i :: 32 word) = word_of_int (int i)"
    by simp
  then have "sint (of_nat i :: 32 word) = (int i + 2 ^ 31) mod 2 ^ 32 - 2 ^ 31"
    by (simp only: int_word_sint) simp
  also have "\<dots> = int i"
    using a by simp
  finally show ?thesis .
qed

lemma tolist_arange: "n \<le> 2 ^ 31 \<Longrightarrow> tolist (arange n) = map int [0..<n]"
  by (simp add: tolist_def arange_def sint_of_nat_int32)

lemma tolist_permutation:
  assumes "permutation_ok R" and "n \<le> 2 ^ 31"
  shows "mset (tolist (random_permutation R k (arange n))) = mset (map int [0..<n])"
proof -
  have "mset (random_permutation R k (arange n)) = mset (arange n)"
    using assms(1) unfolding permutation_ok_def by blast
  then have "mset (tolist (random_permutation R k (arange n))) = mset (tolist (arange n))"
    by (simp only: tolist_def mset_map)
  with tolist_arange [OF assms(2)] show ?thesis by simp
qed

text \<open>
  Claim C2. One pass over the iterator that \<open>JAXRandomSampler.__iter__\<close> returns for
  a data source of length \<open>n\<close> yields exactly \<open>n\<close> integers, and every integer of
  \<open>0, ..., n - 1\<close> exactly once: a permutation of the indices of the data source.
  (\<open>jax.random.permutation\<close> returns a rearrangement of its argument; the indices are
  those an int32 array holds, \<open>n \<le> 2^31\<close>.)
\<close>

theorem JAXRandomSampler_iter_is_permutation:
  assumes "permutation_ok R" and "length ds \<le> 2 ^ 31"
  shows "\<exists>indices s'. sampler_iter R (JAXRandomSampler ds (Some k)) = Inr (indices, s') \<and>
           length indices = length ds \<and>
           (\<forall>i < length ds. count_list indices (int i) = 1) \<and>
           set indices = int ` {0..<length ds} \<and>
           mset indices = mset (map int [0..<length ds])"
proof -
  let ?p = "tolist (random_permutation R (snd (random_split R k)) (arange (length ds)))"
  have m: "mset ?p = mset (map int [0..<length ds])"
    using assms by (rule tolist_permutation)
  from m have "length ?p = length (map int [0..<length ds])"
    by (rule mset_eq_length)
  then have len: "length ?p = length ds"
    by simp
  from m have "set ?p = set (map int [0..<length ds])"
    by (rule mset_eq_setD)
  then have st: "set ?p = int ` {0..<length ds}"
    by simp
  have d: "distinct (map int [0..<length ds])"
    by (simp add: distinct_map)
  have "count_list ?p (int i) = 1" if "i < length ds" for i
  proof -
    have "count (mset ?p) (int i) = count (mset (map int [0..<length ds])) (int i)"
      by (simp only: m)
    also have "\<dots> = 1"
      using that d by (simp only: distinct_count_atmost_1) auto
    finally show ?thesis by (simp add: count_mset)
  qed
  then have cnt: "\<forall>i < length ds. count_list ?p (int i) = 1"
    by blast
  have "sampler_iter R (JAXRandomSampler ds (Some k)) =
      Inr (?p, JAXRandomSampler ds (Some (fst (random_split R k))))"
    by (rule sampler_iter_JAXRandomSampler)
  with m len st cnt show ?thesis by blast
qed

theorem JAXRandomSampler_iter_is_permutation_witness:
  "permutation_ok toy_random \<and>
   length [10, 20, 30, 40 :: nat] \<le> 2 ^ 31 \<and>
   sampler_iter toy_random (JAXRandomSampler [10, 20, 30, 40 :: nat] (Some (0, 2))) =
     Inr ([3, 2, 1, 0], JAXRandomSampler [10, 20, 30, 40 :: nat] (Some (1, 2))) \<and>
   mset [3, 2, 1, 0 :: int] = mset (map int [0..<length [10, 20, 30, 40 :: nat]])"
proof -
  have b: "length [10, 20, 30, 40 :: nat] \<le> 2 ^ 31"
    by simp
  have v: "sampler_iter toy_random (JAXRandomSampler [10, 20, 30, 40 :: nat] (Some (0, 2))) =
      Inr ([3, 2, 1, 0], JAXRandomSampler [10, 20, 30, 40 :: nat] (Some (1, 2)))"
    by (simp add: sampler_len_def toy_random_def arange_def tolist_def upt_rec)
  from JAXRandomSampler_iter_is_permutation [OF toy_permutation_ok b, of "(0, 2)"]
  obtain indices s' where "sampler_iter toy_random (JAXRandomSampler [10, 20, 30, 40 :: nat] (Some (0, 2))) =
      Inr (indices, s')" and "mset indices = mset (map int [0..<length [10, 20, 30, 40 :: nat]])"
    by blast
  with v have "mset [3, 2, 1, 0 :: int] = mset (map int [0..<length [10, 20, 30, 40 :: nat]])"
    by simp
  with v b toy_permutation_ok show ?thesis by blast
qed








subsection \<open>The loader without shuffling\<close>

text \<open>
  Claim C10. A \<open>NumpyLoader\<close> made with \<open>shuffle=False\<close> does not depend on
  \<open>rng_key\<close>: for any two keys (\<open>None\<close> included) the two loaders are the same
  object, with a \<open>SequentialSampler\<close> over the dataset; every pass yields the batches
  of the indices \<open>0, ..., n - 1\<close> in order and leaves the loader as it was.
\<close>

theorem NumpyLoader_no_shuffle_ignores_rng_key:
  "NumpyLoader ds k1 bs False kwargs = NumpyLoader ds k2 bs False kwargs \<and>
   (case NumpyLoader ds k1 bs False kwargs of
      Inl e \<Rightarrow> bs = 0
    | Inr loader \<Rightarrow>
        sampler loader = SequentialSampler ds \<and>
        DataLoader_iter R loader =
          Inr (map (load_batch loader)
                 (batch_sampler bs (kw_drop_last kwargs) (map int [0..<length ds]) []),
               loader))"
  by (simp add: NumpyLoader_def DataLoader_init_def DataLoader_iter_def)

theorem NumpyLoader_no_shuffle_ignores_rng_key_witness:
  "NumpyLoader [PyTuple [NdArray [2] [5, 6], Scalar 7], PyTuple [NdArray [2] [3, 4], Scalar 9],
               PyTuple [NdArray [2] [8, 8], Scalar (2 :: nat)]]
     None 2 False \<lparr>kw_collate_fn = numpy_collate, kw_drop_last = False\<rparr> =
   NumpyLoader [PyTuple [NdArray [2] [5, 6], Scalar 7], PyTuple [NdArray [2] [3, 4], Scalar 9],
               PyTuple [NdArray [2] [8, 8], Scalar (2 :: nat)]]
     (Some (4, 2)) 2 False \<lparr>kw_collate_fn = numpy_collate, kw_drop_last = False\<rparr> \<and>
   (\<exists>loader.
      NumpyLoader [PyTuple [NdArray [2] [5, 6], Scalar 7], PyTuple [NdArray [2] [3, 4], Scalar 9],
                  PyTuple [NdArray [2] [8, 8], Scalar (2 :: nat)]]
        None 2 False \<lparr>kw_collate_fn = numpy_collate, kw_drop_last = False\<rparr> = Inr loader \<and>
      DataLoader_iter toy_random loader =
        Inr ([Inr (PyList [NdArray [2, 2] [5, 6, 3, 4], NdArray [2] [7, 9]]),
              Inr (PyList [NdArray [1, 2] [8, 8], NdArray [1] [2]])], loader))"
proof -
  let ?ds = "[PyTuple [NdArray [2] [5, 6], Scalar 7], PyTuple [NdArray [2] [3, 4], Scalar 9],
              PyTuple [NdArray [2] [8, 8], Scalar (2 :: nat)]]"
  let ?kw = "\<lparr>kw_collate_fn = numpy_collate, kw_drop_last = False\<rparr>"
  let ?L = "\<lparr>dataset = ?ds, batch_size = 2, sampler = SequentialSampler ?ds,
             collate_fn = numpy_collate, drop_last = False\<rparr>"
  note T = NumpyLoader_no_shuffle_ignores_rng_key [of ?ds None 2 ?kw _ toy_random]
  have mk: "NumpyLoader ?ds None 2 False ?kw = Inr ?L"
    by (simp add: NumpyLoader_def DataLoader_init_def)
  from T [of "Some (4, 2)"] have same: "NumpyLoader ?ds None 2 False ?kw =
      NumpyLoader ?ds (Some (4, 2)) 2 False ?kw"
    by blast
  from T [of None] mk have pass: "DataLoader_iter toy_random ?L =
      Inr (map (load_batch ?L) (batch_sampler 2 (kw_drop_last ?kw) (map int [0..<length ?ds]) []), ?L)"
    by simp
  have bt: "batch_sampler 2 (kw_drop_last ?kw) (map int [0..<length ?ds]) [] = [[0, 1], [2]]"
    by (simp add: upt_rec)
  have z0: "zip_star [PyTuple [NdArray [2] [5, 6], Scalar 7], PyTuple [NdArray [2] [3, 4], Scalar (9 :: nat)]] =
      Inr [[NdArray [2] [5, 6], NdArray [2] [3, 4]], [Scalar 7, Scalar 9]]"
    by (simp add: zip_star_def transpose_shortest_def shortest_def upt_rec)
  have z1: "zip_star [PyTuple [NdArray [2] [8, 8], Scalar (2 :: nat)]] =
      Inr [[NdArray [2] [8, 8]], [Scalar 2]]"
    by (simp add: zip_star_def transpose_shortest_def shortest_def upt_rec)
  have b0: "load_batch ?L [0, 1] =
      Inr (PyList [NdArray [2, 2] [5, 6, 3, 4], NdArray [2] [7, 9]])"
    by (simp add: load_batch_def fetch_def getitem_def numpy_collate_Cons z0 np_stack_def
        np_array_def stack_arrays_def)
  have b1: "load_batch ?L [2] = Inr (PyList [NdArray [1, 2] [8, 8], NdArray [1] [2]])"
    by (simp add: load_batch_def fetch_def getitem_def numpy_collate_Cons z1 np_stack_def
        np_array_def stack_arrays_def)
  from pass have "DataLoader_iter toy_random ?L =
      Inr ([Inr (PyList [NdArray [2, 2] [5, 6, 3, 4], NdArray [2] [7, 9]]),
            Inr (PyList [NdArray [1, 2] [8, 8], NdArray [1] [2]])], ?L)"
    by (simp only: bt list.map b0 b1)
  with mk same show ?thesis by blast
qed

end
